theory Spec2Isabelle
  imports Main
begin

section \<open>Python string operations used by the sources\<close>

text \<open>
  A Python \<open>str\<close> is modelled as a \<open>string\<close>; each \<open>char\<close> stands for one code point
  in the range 0..255. The functions below are the built-in operations the sources call.
\<close>

text \<open>\<open>str.isspace\<close> on one character: the whitespace code points below 256.\<close>

definition isspace :: "char \<Rightarrow> bool" where
  "isspace c =
     (let n = (of_char c :: nat)
      in (9 \<le> n \<and> n \<le> 13) \<or> (28 \<le> n \<and> n \<le> 32) \<or> n = 133 \<or> n = 160)"

text \<open>\<open>s.strip()\<close>: whitespace removed at both ends.\<close>

definition strip :: "string \<Rightarrow> string" where
  "strip s = rev (dropWhile isspace (rev (dropWhile isspace s)))"

text \<open>\<open>s.startswith(p)\<close>.\<close>

definition startswith :: "string \<Rightarrow> string \<Rightarrow> bool" where
  "startswith s p = (take (length p) s = p)"

text \<open>\<open>sub in s\<close>: substring test.\<close>

fun contains :: "string \<Rightarrow> string \<Rightarrow> bool" where
  "contains [] sub = (sub = [])"
| "contains (c # cs) sub = (startswith (c # cs) sub \<or> contains cs sub)"

text \<open>\<open>s.split(sep)\<close> for a one-character separator: every occurrence splits, empty
  pieces are kept, and the result is never empty.\<close>

fun split :: "string \<Rightarrow> char \<Rightarrow> string list" where
  "split [] sep = [[]]"
| "split (c # cs) sep =
     (if c = sep then [] # split cs sep
      else (case split cs sep of
              [] \<Rightarrow> [[c]]
            | w # ws \<Rightarrow> (c # w) # ws))"

text \<open>\<open>s.lower()\<close> on code points below 256: A-Z and the accented capitals
  (192..222 without the multiplication sign 215) move up by 32.\<close>

definition lower_char :: "char \<Rightarrow> char" where
  "lower_char c =
     (let n = (of_char c :: nat)
      in if (65 \<le> n \<and> n \<le> 90) \<or> (192 \<le> n \<and> n \<le> 222 \<and> n \<noteq> 215)
         then char_of (n + 32) else c)"

definition lower :: "string \<Rightarrow> string" where
  "lower s = map lower_char s"

text \<open>The first occurrence of a non-empty pattern: the text before it and the text
  after it, or \<open>None\<close> when the pattern does not occur.\<close>

fun find_first :: "string \<Rightarrow> string \<Rightarrow> (string \<times> string) option" where
  "find_first [] pat = None"
| "find_first (c # cs) pat =
     (if startswith (c # cs) pat then Some ([], drop (length pat) (c # cs))
      else (case find_first cs pat of
              None \<Rightarrow> None
            | Some (before, after) \<Rightarrow> Some (c # before, after)))"

lemma find_first_length:
  "find_first s pat = Some (before, after) \<Longrightarrow> length after \<le> length s - length pat"
  by (induction s arbitrary: before) (auto split: if_splits option.splits)

text \<open>
  \<open>re.findall(open + '(.*?)' + close, s, re.DOTALL)\<close> for literal, non-empty tags: the
  scan finds the leftmost opening tag, the lazy group ends at the first closing tag after
  it, and the scan goes on behind that closing tag. An opening tag with no closing tag
  behind it matches nothing, and nothing after it can match either.
\<close>

function findall_between :: "string \<Rightarrow> string \<Rightarrow> string \<Rightarrow> string list" where
  "findall_between opn cls s =
     (if opn = [] \<or> cls = [] then []
      else (case find_first s opn of
              None \<Rightarrow> []
            | Some (_, rest) \<Rightarrow>
                (case find_first rest cls of
                   None \<Rightarrow> []
                 | Some (inner, rest') \<Rightarrow> inner # findall_between opn cls rest')))"
  by pat_completeness auto
termination
proof (relation "measure (\<lambda>(opn, cls, s). length s)", goal_cases)
  case 1
  show ?case by simp
next
  case (2 opn cls s found before rest found' inner rest')
  from 2 have a: "length rest \<le> length s - length opn"
    using find_first_length [of s opn before rest] by simp
  from 2 have b: "length rest' \<le> length rest - length cls"
    using find_first_length [of rest cls inner rest'] by simp
  from 2 have "s \<noteq> []" "opn \<noteq> []" by auto
  with a b show ?case by (cases s; cases opn) auto
qed

declare findall_between.simps [simp del]

section \<open>Step extractor (jira_client.py)\<close>

text \<open>A test step, as the dictionaries built by the extractor and as \<open>models.TestStep\<close>.\<close>

record TestStep =
  test :: string
  test_step :: string
  expected_output :: string

text \<open>
  Format 1, the loop over the lines of a Jira markdown table. The state of the loop is
  the flag \<open>header_found\<close> and the list \<open>test_steps\<close> built so far.
\<close>

fun pipe_table_loop :: "string list \<Rightarrow> bool \<Rightarrow> TestStep list \<Rightarrow> TestStep list" where
  "pipe_table_loop [] header_found test_steps = test_steps"
| "pipe_table_loop (line # lines) header_found test_steps =
     (if startswith line ''||'' \<and> \<not> header_found
      then pipe_table_loop lines True test_steps
      else if startswith line ''|'' \<and> header_found
      then (let cells = split line (CHR ''|'');
                cells = [strip cell. cell \<leftarrow> cells, strip cell \<noteq> []]
            in if 3 \<le> length cells
               then pipe_table_loop lines header_found
                      (test_steps @ [\<lparr>test = cells ! 0, test_step = cells ! 1,
                                      expected_output = cells ! 2\<rparr>])
               else pipe_table_loop lines header_found test_steps)
      else pipe_table_loop lines header_found test_steps)"

text \<open>Format 2, the loop over the rows of an HTML table (the header row already cut).\<close>

fun html_table_loop :: "string list \<Rightarrow> TestStep list \<Rightarrow> TestStep list" where
  "html_table_loop [] test_steps = test_steps"
| "html_table_loop (row # rows) test_steps =
     (let cells = findall_between ''<td>'' ''</td>'' row
      in if 3 \<le> length cells
         then html_table_loop rows
                (test_steps @ [\<lparr>test = cells ! 0, test_step = cells ! 1,
                                expected_output = cells ! 2\<rparr>])
         else html_table_loop rows test_steps)"

text \<open>\<open>JiraClient._extract_test_steps_from_description\<close>.\<close>

definition extract_test_steps_from_description :: "string \<Rightarrow> TestStep list" where
  "extract_test_steps_from_description description =
     (if contains description ''||''
      then pipe_table_loop (split description (CHR 0x0A)) False []
      else if contains description ''<table>'' \<or> contains description ''<tbody>''
      then html_table_loop (drop 1 (findall_between ''<tr>'' ''</tr>'' description)) []
      else [])"

subsection \<open>The pipe-table encoding as the specification words it\<close>

text \<open>A row's cells: split on the pipe character, trim, discard the empty cells.\<close>

definition spec_row_cells :: "string \<Rightarrow> string list" where
  "spec_row_cells line = filter (\<lambda>cell. cell \<noteq> []) (map strip (split line (CHR ''|'')))"

text \<open>A row contributes one step when it has at least three cells, built from the first
  three; otherwise it contributes nothing.\<close>

definition spec_row_steps :: "string \<Rightarrow> TestStep list" where
  "spec_row_steps line =
     (case spec_row_cells line of
        a # b # c # extra \<Rightarrow> [\<lparr>test = a, test_step = b, expected_output = c\<rparr>]
      | _ \<Rightarrow> [])"

text \<open>The data rows: the lines after the first line that begins with a double pipe
  which themselves begin with a pipe.\<close>

definition spec_data_rows :: "string \<Rightarrow> string list" where
  "spec_data_rows description =
     filter (\<lambda>line. startswith line ''|'')
       (tl (dropWhile (\<lambda>line. \<not> startswith line ''||'') (split description (CHR 0x0A))))"

definition spec_pipe_table_steps :: "string \<Rightarrow> TestStep list" where
  "spec_pipe_table_steps description = concat (map spec_row_steps (spec_data_rows description))"

text \<open>The description of the scenario in the specification.\<close>

definition login_description :: string where
  "login_description =
     ''||Test|Step|Expected||'' @ [CHR 0x0A] @ ''|Login|Enter user|Dashboard shown|''"

section \<open>The issue tracker as the client sees it\<close>

text \<open>
  The \<open>jira\<close> library is external. An exception is a value carrying the text that
  \<open>str(e)\<close> gives. The tracker is read as one snapshot: during a request the same call
  gives the same answer.
\<close>

datatype exn = JIRAError string | OSError string

fun str_exn :: "exn \<Rightarrow> string" where
  "str_exn (JIRAError msg) = msg"
| "str_exn (OSError msg) = msg"

text \<open>
  An issue link: \<open>link.type.name\<close>, \<open>link.type.inward\<close>, and the key of
  \<open>link.inwardIssue\<close> and of \<open>link.outwardIssue\<close>, each \<open>None\<close> when the link has no
  such attribute (\<open>hasattr\<close> is false).
\<close>

record IssueLink =
  type_name :: string
  type_inward :: string
  inwardIssue :: "string option"
  outwardIssue :: "string option"

text \<open>
  An issue: \<open>issue.key\<close>, \<open>issue.id\<close>, and of \<open>issue.fields\<close> the summary, the name of
  the status, the description (\<open>None\<close> when the issue has none) and the links (the empty
  list when the attribute is absent or empty: both skip the loop over the links).
\<close>

record Issue =
  issue_key :: string
  issue_id :: string
  fields_summary :: string
  fields_status_name :: string
  fields_description :: "string option"
  fields_issuelinks :: "IssueLink list"

text \<open>
  The two calls the client makes: \<open>jira.issue(key)\<close> and
  \<open>jira.search_issues(jql, maxResults=100)\<close>. Each returns or raises.
\<close>

record JIRA =
  issue :: "string \<Rightarrow> exn + Issue"
  search_issues :: "string \<Rightarrow> exn + Issue list"

record JiraClient =
  jira_url :: string
  project_key :: string
  jira :: JIRA

text \<open>The test case dictionary built by \<open>_process_test_case\<close> (\<open>models.TestCase\<close>).\<close>

record TestCase =
  key :: string
  tc_id :: string
  summary :: string
  status :: string
  test_steps :: "TestStep list"

text \<open>\<open>JiraClient._find_blocking_issues\<close>: the loop over the links of an issue.\<close>

fun find_blocking_issues_loop :: "IssueLink list \<Rightarrow> string list \<Rightarrow> string list" where
  "find_blocking_issues_loop [] blocking_issues = blocking_issues"
| "find_blocking_issues_loop (link # links) blocking_issues =
     (if inwardIssue link \<noteq> None
         \<and> lower (type_name link) \<in> set [''blocks'', ''is blocked by'']
      then find_blocking_issues_loop links (blocking_issues @ [the (inwardIssue link)])
      else if outwardIssue link \<noteq> None \<and> lower (type_name link) = ''blocks''
              \<and> contains (lower (type_inward link)) ''outward''
      then find_blocking_issues_loop links (blocking_issues @ [the (outwardIssue link)])
      else find_blocking_issues_loop links blocking_issues)"

definition find_blocking_issues :: "Issue \<Rightarrow> string list" where
  "find_blocking_issues iss = find_blocking_issues_loop (fields_issuelinks iss) []"

text \<open>
  The loop of \<open>_process_test_case\<close> over the blocking keys. A blocking issue that cannot
  be fetched is skipped (the exception is caught and printed); one without a description,
  or with an empty one, adds nothing.
\<close>

fun blocking_steps_loop :: "JIRA \<Rightarrow> string list \<Rightarrow> TestStep list \<Rightarrow> TestStep list" where
  "blocking_steps_loop j [] blocking_steps = blocking_steps"
| "blocking_steps_loop j (blocking_key # keys) blocking_steps =
     (case issue j blocking_key of
        Inl e \<Rightarrow> blocking_steps_loop j keys blocking_steps
      | Inr blocking_issue \<Rightarrow>
          (case fields_description blocking_issue of
             None \<Rightarrow> blocking_steps_loop j keys blocking_steps
           | Some d \<Rightarrow>
               if d \<noteq> []
               then blocking_steps_loop j keys
                      (blocking_steps @ extract_test_steps_from_description d)
               else blocking_steps_loop j keys blocking_steps))"

text \<open>The steps of an issue's own description; none when it is absent or empty.\<close>

definition description_steps :: "Issue \<Rightarrow> TestStep list" where
  "description_steps iss =
     (case fields_description iss of
        None \<Rightarrow> []
      | Some d \<Rightarrow> if d \<noteq> [] then extract_test_steps_from_description d else [])"

text \<open>\<open>JiraClient._process_test_case\<close>.\<close>

definition process_test_case :: "JiraClient \<Rightarrow> Issue \<Rightarrow> TestCase" where
  "process_test_case self iss =
     (let test_case = \<lparr>key = issue_key iss, tc_id = issue_id iss,
                       summary = fields_summary iss, status = fields_status_name iss,
                       test_steps = []\<rparr>;
          blocking_issue_keys = find_blocking_issues iss
      in if blocking_issue_keys \<noteq> []
         then (let blocking_steps = blocking_steps_loop (jira self) blocking_issue_keys []
               in test_case\<lparr>test_steps := blocking_steps @ description_steps iss\<rparr>)
         else test_case\<lparr>test_steps := description_steps iss\<rparr>)"

text \<open>The JQL text of \<open>get_test_cases_by_status\<close>.\<close>

definition jql_query :: "string \<Rightarrow> string \<Rightarrow> string" where
  "jql_query project status_name =
     ''project = '' @ project @ '' AND status = '' @ [CHR 0x22] @ status_name @ [CHR 0x22]
       @ '' ORDER BY created DESC''"

text \<open>
  \<open>JiraClient.get_test_cases_by_status\<close>. A failing search raises. Every processed
  issue is a non-empty dictionary, hence true, so every one is appended.
\<close>

definition get_test_cases_by_status :: "JiraClient \<Rightarrow> string \<Rightarrow> exn + TestCase list" where
  "get_test_cases_by_status self status_name =
     (case search_issues (jira self) (jql_query (project_key self) status_name) of
        Inl e \<Rightarrow> Inl e
      | Inr issues \<Rightarrow> Inr (map (process_test_case self) issues))"

text \<open>\<open>JiraClient.get_test_case_by_key\<close>: every exception becomes \<open>None\<close>.\<close>

definition get_test_case_by_key :: "JiraClient \<Rightarrow> string \<Rightarrow> TestCase option" where
  "get_test_case_by_key self k =
     (case issue (jira self) k of
        Inl e \<Rightarrow> None
      | Inr iss \<Rightarrow> Some (process_test_case self iss))"

section \<open>The local result store (utils.py)\<close>

text \<open>
  One entry of \<open>steps_results\<close> (\<open>models.TestStepResult\<close> as a dictionary) and one
  completion record, as \<open>send_test_results\<close> builds it and as the results file holds it.
  The time stamp is the text that \<open>json.dump(..., default=str)\<close> writes.
\<close>

record TestStepResult =
  sr_test_step :: string
  log_or_error :: string
  step_result :: string
  sr_timestamp :: string

record TestResult =
  test_case_key :: string
  steps_results :: "TestStepResult list"
  overall_result :: string
  timestamp :: string

text \<open>
  Messages sent to the logger are not part of the model. What opening and decoding the
  results file gives: \<open>FileNotFoundError\<close>,
  \<open>json.JSONDecodeError\<close>, another error of \<open>open\<close> (which \<open>load_test_results\<close> does
  not catch), or the decoded collection, the list under \<open>"test_results"\<close>. The file is
  written only by \<open>save_test_results\<close> and \<open>initialize_directories\<close>, so what decodes
  is a list of records.
\<close>

datatype file_state = NotFound | Undecodable | Unreadable string | Content "TestResult list"

text \<open>
  The files the server works on. \<open>write_outcomes\<close> gives, for the coming attempts to
  write the results file, whether each succeeds; when the list is used up every further
  write succeeds. A failed write leaves the file as it was. \<open>log_lines\<close> are the lines
  appended to the per-test log files, each with the key of its file (the time stamp that
  starts a line is left out).
\<close>

record files =
  results_file :: file_state
  write_outcomes :: "bool list"
  logs_writable :: bool
  log_lines :: "(string \<times> string) list"

text \<open>\<open>save_test_results\<close>: true when written, false when the write raised.\<close>

definition save_test_results :: "TestResult list \<Rightarrow> files \<Rightarrow> bool \<times> files" where
  "save_test_results results fs =
     (case write_outcomes fs of
        [] \<Rightarrow> (True, fs\<lparr>results_file := Content results\<rparr>)
      | ok # later \<Rightarrow>
          if ok then (True, fs\<lparr>results_file := Content results, write_outcomes := later\<rparr>)
          else (False, fs\<lparr>write_outcomes := later\<rparr>))"

text \<open>
  \<open>load_test_results\<close>: a missing or undecodable file is replaced by an empty
  collection (the outcome of that save is ignored) and the empty collection is returned.
\<close>

definition load_test_results :: "files \<Rightarrow> (exn + TestResult list) \<times> files" where
  "load_test_results fs =
     (case results_file fs of
        Content results \<Rightarrow> (Inr results, fs)
      | NotFound \<Rightarrow> (Inr [], snd (save_test_results [] fs))
      | Undecodable \<Rightarrow> (Inr [], snd (save_test_results [] fs))
      | Unreadable msg \<Rightarrow> (Inl (OSError msg), fs))"

text \<open>
  The loop of \<open>update_test_result\<close> over \<open>enumerate(results["test_results"])\<close>: the
  index of the first record with the key of \<open>test_result\<close>, where the loop assigns and
  returns; \<open>None\<close> when the loop runs to its end.
\<close>

fun existing_index :: "TestResult list \<Rightarrow> nat \<Rightarrow> TestResult \<Rightarrow> nat option" where
  "existing_index [] i test_result = None"
| "existing_index (r # rs) i test_result =
     (if test_case_key r = test_case_key test_result then Some i
      else existing_index rs (Suc i) test_result)"

text \<open>\<open>update_test_result\<close>.\<close>

definition update_test_result :: "TestResult \<Rightarrow> files \<Rightarrow> (exn + bool) \<times> files" where
  "update_test_result test_result fs =
     (case load_test_results fs of
        (Inl e, fs1) \<Rightarrow> (Inl e, fs1)
      | (Inr results, fs1) \<Rightarrow>
          (case existing_index results 0 test_result of
             Some i \<Rightarrow>
               (let (saved, fs2) = save_test_results (results[i := test_result]) fs1
                in (Inr saved, fs2))
           | None \<Rightarrow>
               (let (saved, fs2) = save_test_results (results @ [test_result]) fs1
                in (Inr saved, fs2))))"

text \<open>\<open>get_completed_test_keys\<close>.\<close>

definition get_completed_test_keys :: "files \<Rightarrow> (exn + string list) \<times> files" where
  "get_completed_test_keys fs =
     (case load_test_results fs of
        (Inl e, fs1) \<Rightarrow> (Inl e, fs1)
      | (Inr results, fs1) \<Rightarrow>
          (Inr [test_case_key r. r \<leftarrow> results, overall_result r \<in> set [''Pass'', ''Fail'']],
           fs1))"

text \<open>\<open>is_test_completed\<close>.\<close>

definition is_test_completed :: "string \<Rightarrow> files \<Rightarrow> (exn + bool) \<times> files" where
  "is_test_completed k fs =
     (case get_completed_test_keys fs of
        (Inl e, fs1) \<Rightarrow> (Inl e, fs1)
      | (Inr completed_keys, fs1) \<Rightarrow> (Inr (k \<in> set completed_keys), fs1))"

text \<open>\<open>log_test_execution\<close>: appends a line to the log file of the key, or raises.\<close>

definition log_test_execution :: "string \<Rightarrow> string \<Rightarrow> files \<Rightarrow> (exn + unit) \<times> files" where
  "log_test_execution k message fs =
     (if logs_writable fs then (Inr (), fs\<lparr>log_lines := log_lines fs @ [(k, message)]\<rparr>)
      else (Inl (OSError ''cannot open log file''), fs))"

text \<open>The collection that \<open>update_test_result\<close> hands to \<open>save_test_results\<close>, in the
  words of the specification: replace the first record with the key, or append.\<close>

definition spec_replace_or_append :: "TestResult \<Rightarrow> TestResult list \<Rightarrow> TestResult list" where
  "spec_replace_or_append test_result results =
     (if test_case_key test_result \<in> test_case_key ` set results
      then takeWhile (\<lambda>r. test_case_key r \<noteq> test_case_key test_result) results
           @ test_result
           # tl (dropWhile (\<lambda>r. test_case_key r \<noteq> test_case_key test_result) results)
      else results @ [test_result])"

section \<open>Dependency resolver (dependency_resolver.py)\<close>

record DependencyResolver =
  jira_client :: JiraClient
  completed_tests :: "string set"

text \<open>The constructor and \<open>refresh_completed_tests\<close> read the completed keys.\<close>

definition new_DependencyResolver ::
  "JiraClient \<Rightarrow> files \<Rightarrow> (exn + DependencyResolver) \<times> files" where
  "new_DependencyResolver client fs =
     (case get_completed_test_keys fs of
        (Inl e, fs1) \<Rightarrow> (Inl e, fs1)
      | (Inr ks, fs1) \<Rightarrow> (Inr \<lparr>jira_client = client, completed_tests = set ks\<rparr>, fs1))"

definition refresh_completed_tests ::
  "DependencyResolver \<Rightarrow> files \<Rightarrow> (exn + DependencyResolver) \<times> files" where
  "refresh_completed_tests self fs =
     (case get_completed_test_keys fs of
        (Inl e, fs1) \<Rightarrow> (Inl e, fs1)
      | (Inr ks, fs1) \<Rightarrow> (Inr (self\<lparr>completed_tests := set ks\<rparr>), fs1))"

text \<open>The loop of \<open>_find_dependencies\<close> over the links of the issue.\<close>

fun find_dependencies_loop :: "IssueLink list \<Rightarrow> string list \<Rightarrow> string list" where
  "find_dependencies_loop [] dependencies = dependencies"
| "find_dependencies_loop (link # links) dependencies =
     (if inwardIssue link \<noteq> None
         \<and> lower (type_name link) \<in> set [''blocks'', ''is blocked by'']
      then find_dependencies_loop links (dependencies @ [the (inwardIssue link)])
      else if outwardIssue link \<noteq> None \<and> lower (type_name link) = ''blocks''
              \<and> contains (lower (type_inward link)) ''outward''
      then find_dependencies_loop links (dependencies @ [the (outwardIssue link)])
      else find_dependencies_loop links dependencies)"

text \<open>
  \<open>DependencyResolver._find_dependencies\<close>. When the test case cannot be fetched the
  result is empty. When the fetch inside the \<open>try\<close> raises, the handler logs and the
  function returns \<open>dependencies\<close>, still empty at that point.
\<close>

definition find_dependencies :: "DependencyResolver \<Rightarrow> string \<Rightarrow> string list" where
  "find_dependencies self test_key =
     (case get_test_case_by_key (jira_client self) test_key of
        None \<Rightarrow> []
      | Some test_case \<Rightarrow>
          (case issue (jira (jira_client self)) test_key of
             Inl e \<Rightarrow> []
           | Inr iss \<Rightarrow> find_dependencies_loop (fields_issuelinks iss) []))"

text \<open>\<open>DependencyResolver._can_execute_test\<close>.\<close>

definition can_execute_test :: "DependencyResolver \<Rightarrow> TestCase \<Rightarrow> bool" where
  "can_execute_test self tc =
     (if key tc \<in> completed_tests self then False
      else (let dependencies = find_dependencies self (key tc)
            in list_all (\<lambda>dep_key. dep_key \<in> completed_tests self) dependencies))"

text \<open>The loop of \<open>find_executable_tests\<close> over the fetched test cases.\<close>

fun executable_tests_loop ::
  "DependencyResolver \<Rightarrow> TestCase list \<Rightarrow> TestCase list \<Rightarrow> TestCase list" where
  "executable_tests_loop self [] executable_tests = executable_tests"
| "executable_tests_loop self (tc # test_cases) executable_tests =
     (if can_execute_test self tc
      then executable_tests_loop self test_cases (executable_tests @ [tc])
      else executable_tests_loop self test_cases executable_tests)"

text \<open>\<open>DependencyResolver.find_executable_tests\<close>; a failing search raises.\<close>

definition find_executable_tests :: "DependencyResolver \<Rightarrow> string \<Rightarrow> exn + TestCase list" where
  "find_executable_tests self status_name =
     (case get_test_cases_by_status (jira_client self) status_name of
        Inl e \<Rightarrow> Inl e
      | Inr test_cases \<Rightarrow> Inr (executable_tests_loop self test_cases []))"

text \<open>\<open>DependencyResolver.get_next_test\<close>, with the default status \<open>"To Do"\<close>.\<close>

definition get_next_test :: "DependencyResolver \<Rightarrow> exn + TestCase option" where
  "get_next_test self =
     (case find_executable_tests self ''To Do'' of
        Inl e \<Rightarrow> Inl e
      | Inr executable_tests \<Rightarrow>
          if executable_tests = [] then Inr None else Inr (Some (executable_tests ! 0)))"

section \<open>The endpoints (main.py)\<close>

text \<open>The minimal test object of \<open>/incomplete-tests\<close>: key, summary and status.\<close>

record IncompleteTest =
  inc_key :: string
  inc_summary :: string
  inc_status :: string

text \<open>
  What an endpoint gives back: a \<open>JSONResponse\<close> with its status code and content, or
  the \<open>HTTPException\<close> it raises, with status code and detail.
\<close>

datatype content =
    Message string
  | IncompleteTests "IncompleteTest list" nat
  | ResultsSaved string string bool nat

datatype response = JSONResponse nat content | HTTPException nat string

text \<open>
  The key sets of both endpoints: \<open>todo_keys\<close>, \<open>in_progress_keys\<close>, \<open>done_keys\<close>,
  \<open>active_keys\<close> and \<open>incomplete_keys\<close>.
\<close>

definition incomplete_keys ::
  "TestCase list \<Rightarrow> TestCase list \<Rightarrow> TestCase list \<Rightarrow> string list \<Rightarrow> string set" where
  "incomplete_keys todo_tests in_progress_tests done_tests completed_keys =
     (let todo_keys = set (map key todo_tests);
          in_progress_keys = set (map key in_progress_tests);
          done_keys = set (map key done_tests);
          active_keys = todo_keys \<union> in_progress_keys
      in active_keys - done_keys - set completed_keys)"

text \<open>\<open>get_incomplete_tests\<close>. Every exception becomes an \<open>HTTPException\<close> 500.\<close>

definition get_incomplete_tests :: "JiraClient \<Rightarrow> files \<Rightarrow> response \<times> files" where
  "get_incomplete_tests client fs =
     (case get_test_cases_by_status client ''To Do'' of
        Inl e \<Rightarrow> (HTTPException 500 (str_exn e), fs)
      | Inr todo_tests \<Rightarrow>
     (case get_test_cases_by_status client ''In Progress'' of
        Inl e \<Rightarrow> (HTTPException 500 (str_exn e), fs)
      | Inr in_progress_tests \<Rightarrow>
     (case get_test_cases_by_status client ''Done'' of
        Inl e \<Rightarrow> (HTTPException 500 (str_exn e), fs)
      | Inr done_tests \<Rightarrow>
     (case get_completed_test_keys fs of
        (Inl e, fs1) \<Rightarrow> (HTTPException 500 (str_exn e), fs1)
      | (Inr completed_keys, fs1) \<Rightarrow>
          (let remaining = incomplete_keys todo_tests in_progress_tests done_tests
                             completed_keys;
               incomplete_tests =
                 [\<lparr>inc_key = key tc, inc_summary = summary tc, inc_status = status tc\<rparr>.
                    tc \<leftarrow> todo_tests @ in_progress_tests, key tc \<in> remaining]
           in (JSONResponse 200 (IncompleteTests incomplete_tests (length incomplete_tests)),
               fs1))))))"

text \<open>The body of a result submission (\<open>models.TestResultSubmission\<close>).\<close>

record TestResultSubmission =
  sub_test_case_key :: string
  sub_results :: "TestStepResult list"
  sub_overall_result :: string

text \<open>The record that \<open>send_test_results\<close> builds; \<open>now\<close> is \<open>datetime.now()\<close>.\<close>

definition submitted_record :: "TestResultSubmission \<Rightarrow> string \<Rightarrow> TestResult" where
  "submitted_record submission now =
     \<lparr>test_case_key = sub_test_case_key submission, steps_results = sub_results submission,
      overall_result = sub_overall_result submission, timestamp = now\<rparr>"

text \<open>\<open>send_test_results\<close>.\<close>

definition send_test_results ::
  "TestResultSubmission \<Rightarrow> string \<Rightarrow> JiraClient \<Rightarrow> files \<Rightarrow> response \<times> files" where
  "send_test_results submission now client fs =
     (case update_test_result (submitted_record submission now) fs of
        (Inl e, fs1) \<Rightarrow> (HTTPException 500 (str_exn e), fs1)
      | (Inr update_successful, fs1) \<Rightarrow>
     if \<not> update_successful
     then (JSONResponse 500 (Message ''Failed to update test results''), fs1)
     else
     (case get_completed_test_keys fs1 of
        (Inl e, fs2) \<Rightarrow> (HTTPException 500 (str_exn e), fs2)
      | (Inr completed_keys, fs2) \<Rightarrow>
     (case log_test_execution (sub_test_case_key submission)
             (''Test completed with result: '' @ sub_overall_result submission) fs2 of
        (Inl e, fs3) \<Rightarrow> (HTTPException 500 (str_exn e), fs3)
      | (Inr u, fs3) \<Rightarrow>
     (case get_test_cases_by_status client ''To Do'' of
        Inl e \<Rightarrow> (HTTPException 500 (str_exn e), fs3)
      | Inr todo_tests \<Rightarrow>
     (case get_test_cases_by_status client ''In Progress'' of
        Inl e \<Rightarrow> (HTTPException 500 (str_exn e), fs3)
      | Inr in_progress_tests \<Rightarrow>
     (case get_test_cases_by_status client ''Done'' of
        Inl e \<Rightarrow> (HTTPException 500 (str_exn e), fs3)
      | Inr done_tests \<Rightarrow>
          (let remaining = incomplete_keys todo_tests in_progress_tests done_tests
                             completed_keys
           in (JSONResponse 200
                 (ResultsSaved ''Test results saved successfully'' ''completed''
                    (0 < card remaining) (card remaining)),
               fs3))))))))"

text \<open>Whether a response reports success: a \<open>JSONResponse\<close> with a status below 400.\<close>

fun reports_success :: "response \<Rightarrow> bool" where
  "reports_success (JSONResponse code body) = (code < 400)"
| "reports_success (HTTPException code detail) = False"

section \<open>A small tracker and result file for the scenarios\<close>

text \<open>
  The scenario of the specification: A and B are To Do, C is In Progress and is blocked by
  A, D is Done; the results file holds a passed record for B. No issue has the key Z.
\<close>

definition plain_issue :: "string \<Rightarrow> string \<Rightarrow> Issue" where
  "plain_issue k st =
     \<lparr>issue_key = k, issue_id = ''1'' @ k, fields_summary = ''Test '' @ k,
      fields_status_name = st, fields_description = None, fields_issuelinks = []\<rparr>"

definition issue_A :: Issue where "issue_A = plain_issue ''A'' ''To Do''"
definition issue_B :: Issue where "issue_B = plain_issue ''B'' ''To Do''"
definition issue_D :: Issue where "issue_D = plain_issue ''D'' ''Done''"

definition issue_C :: Issue where
  "issue_C = (plain_issue ''C'' ''In Progress'')
     \<lparr>fields_issuelinks :=
        [\<lparr>type_name = ''Blocks'', type_inward = ''is blocked by'',
          inwardIssue = Some ''A'', outwardIssue = None\<rparr>]\<rparr>"

definition scenario_jira :: JIRA where
  "scenario_jira =
     \<lparr>issue = (\<lambda>k. if k = ''A'' then Inr issue_A else if k = ''B'' then Inr issue_B
                    else if k = ''C'' then Inr issue_C else if k = ''D'' then Inr issue_D
                    else Inl (JIRAError ''Issue Does Not Exist'')),
      search_issues = (\<lambda>q. if q = jql_query ''PROJ'' ''To Do'' then Inr [issue_A, issue_B]
                    else if q = jql_query ''PROJ'' ''In Progress'' then Inr [issue_C]
                    else if q = jql_query ''PROJ'' ''Done'' then Inr [issue_D]
                    else Inr [])\<rparr>"

definition scenario_client :: JiraClient where
  "scenario_client =
     \<lparr>jira_url = ''https://tracker.example'', project_key = ''PROJ'', jira = scenario_jira\<rparr>"

definition record_for :: "string \<Rightarrow> string \<Rightarrow> TestResult" where
  "record_for k outcome =
     \<lparr>test_case_key = k, steps_results = [], overall_result = outcome,
      timestamp = ''2024-01-01 00:00:00''\<rparr>"

definition scenario_files :: files where
  "scenario_files =
     \<lparr>results_file = Content [record_for ''B'' ''Pass''], write_outcomes = [],
      logs_writable = True, log_lines = []\<rparr>"

definition scenario_resolver :: DependencyResolver where
  "scenario_resolver = \<lparr>jira_client = scenario_client, completed_tests = {''B''}\<rparr>"

text \<open>A results file with a passed, a blocked and a failed record, and the same file
  on a disk where the next write fails.\<close>

definition mixed_results :: "TestResult list" where
  "mixed_results = [record_for ''B'' ''Pass'', record_for ''E'' ''Blocked'', record_for ''F'' ''Fail'']"

definition mixed_files :: files where
  "mixed_files =
     \<lparr>results_file = Content mixed_results, write_outcomes = [],
      logs_writable = True, log_lines = []\<rparr>"

definition failing_files :: files where
  "failing_files = mixed_files\<lparr>write_outcomes := [False]\<rparr>"

definition submission_E :: TestResultSubmission where
  "submission_E = \<lparr>sub_test_case_key = ''E'', sub_results = [], sub_overall_result = ''Pass''\<rparr>"

text \<open>The test case dictionary of an issue without links and description, and a
  description in the HTML table encoding whose first data cell is padded with blanks.\<close>

definition plain_case :: "string \<Rightarrow> string \<Rightarrow> TestCase" where
  "plain_case k st =
     \<lparr>key = k, tc_id = ''1'' @ k, summary = ''Test '' @ k, status = st, test_steps = []\<rparr>"

definition html_description :: string where
  "html_description =
     ''<table><tr><th>Test</th><th>Step</th><th>Expected</th></tr>''
     @ ''<tr><td> Login </td><td>Enter user</td><td>Dashboard shown</td></tr></table>''"

section \<open>Properties of the step extractor\<close>

lemma clean_cells:
  "[strip cell. cell \<leftarrow> cells, strip cell \<noteq> []] = filter (\<lambda>cell. cell \<noteq> []) (map strip cells)"
  by (induction cells) auto

lemma row_steps_code:
  "(let cells = split line (CHR ''|'');
        cells = [strip cell. cell \<leftarrow> cells, strip cell \<noteq> []]
    in if 3 \<le> length cells
       then f (acc @ [\<lparr>test = cells ! 0, test_step = cells ! 1, expected_output = cells ! 2\<rparr>])
       else f acc)
   = f (acc @ spec_row_steps line)"
proof -
  have eq: "[strip cell. cell \<leftarrow> split line (CHR ''|''), strip cell \<noteq> []] = spec_row_cells line"
    by (simp only: clean_cells spec_row_cells_def)
  show ?thesis
    unfolding Let_def eq spec_row_steps_def
    by (cases "spec_row_cells line" rule: list.exhaust) (auto split: list.splits)
qed

lemma pipe_table_loop_header_found:
  "pipe_table_loop lines True acc =
     acc @ concat (map spec_row_steps (filter (\<lambda>line. startswith line ''|'') lines))"
proof (induction lines arbitrary: acc)
  case Nil
  show ?case by simp
next
  case (Cons line lines)
  show ?case
  proof (cases "startswith line ''|''")
    case True
    have "pipe_table_loop (line # lines) True acc =
            pipe_table_loop lines True (acc @ spec_row_steps line)"
      using True row_steps_code [of line "pipe_table_loop lines True" acc] by simp
    then show ?thesis using True Cons.IH by simp
  next
    case False
    then show ?thesis using Cons.IH by simp
  qed
qed

lemma pipe_table_loop_before_header:
  "pipe_table_loop lines False acc =
     acc @ concat (map spec_row_steps
       (filter (\<lambda>line. startswith line ''|'')
          (tl (dropWhile (\<lambda>line. \<not> startswith line ''||'') lines))))"
proof (induction lines)
  case Nil
  show ?case by simp
next
  case (Cons line lines)
  show ?case
  proof (cases "startswith line ''||''")
    case True
    then show ?thesis by (simp add: pipe_table_loop_header_found)
  next
    case False
    then show ?thesis using Cons.IH by simp
  qed
qed

lemma length_concat_row_steps:
  "length (concat (map spec_row_steps rows)) =
     length (filter (\<lambda>line. 3 \<le> length (spec_row_cells line)) rows)"
  by (induction rows) (auto simp: spec_row_steps_def split: list.splits)

lemma extract_pipe_table:
  assumes "contains description ''||''"
  shows "extract_test_steps_from_description description = spec_pipe_table_steps description"
proof -
  have "extract_test_steps_from_description description =
          pipe_table_loop (split description (CHR 0x0A)) False []"
    using assms by (simp add: extract_test_steps_from_description_def)
  then show ?thesis
    by (simp add: pipe_table_loop_before_header spec_pipe_table_steps_def spec_data_rows_def)
qed

lemma strip_of_trimmed:
  assumes "t = [] \<or> (\<not> isspace (hd t) \<and> \<not> isspace (last t))"
  shows "strip t = t"
proof (cases t)
  case Nil
  then show ?thesis by (simp add: strip_def)
next
  case (Cons c cs)
  with assms have h: "\<not> isspace (hd t)" and l: "\<not> isspace (last t)" by auto
  have a: "dropWhile isspace t = t"
    using Cons h by simp
  obtain x xs where r: "rev t = x # xs"
    using Cons by (cases "rev t") auto
  have "hd (rev t) = last t" using Cons by (simp add: hd_rev)
  then have "\<not> isspace x" using l r by simp
  then have "dropWhile isspace (rev t) = rev t"
    by (simp add: r)
  then show ?thesis by (simp add: strip_def a)
qed

lemma strip_ends:
  "strip s = [] \<or> (\<not> isspace (hd (strip s)) \<and> \<not> isspace (last (strip s)))"
proof (cases "strip s = []")
  case True
  then show ?thesis by simp
next
  case False
  let ?u = "dropWhile isspace s"
  let ?v = "dropWhile isspace (rev ?u)"
  have sv: "strip s = rev ?v" by (simp add: strip_def)
  with False have v: "?v \<noteq> []" by simp
  then have hv: "\<not> isspace (hd ?v)" by (rule hd_dropWhile)
  have "rev (takeWhile isspace (rev ?u) @ ?v) = rev (rev ?u)"
    by (simp only: takeWhile_dropWhile_id)
  then have u: "?u = rev ?v @ rev (takeWhile isspace (rev ?u))"
    by (simp only: rev_append rev_rev_ident)
  have "?u \<noteq> []"
  proof
    assume e: "?u = []"
    have "?v = []" by (simp only: e rev.simps dropWhile.simps)
    with v show False by contradiction
  qed
  then have hu: "\<not> isspace (hd ?u)" by (rule hd_dropWhile)
  have "hd ?u = hd (rev ?v)"
    using v by (subst u) simp
  then have "\<not> isspace (hd (strip s))" using hu sv by simp
  moreover have "last (strip s) = hd ?v" using v sv by (simp add: last_rev)
  ultimately show ?thesis using hv by simp
qed

lemma strip_idem: "strip (strip s) = strip s"
  using strip_ends [of s] by (rule strip_of_trimmed)

lemma spec_row_cells_trimmed:
  "cell \<in> set (spec_row_cells line) \<Longrightarrow> strip cell = cell \<and> cell \<noteq> []"
  by (auto simp: spec_row_cells_def strip_idem)

lemma spec_row_steps_trimmed:
  assumes "s \<in> set (spec_row_steps line)"
  shows "strip (test s) = test s \<and> strip (test_step s) = test_step s
       \<and> strip (expected_output s) = expected_output s"
proof -
  define cells where "cells = spec_row_cells line"
  from assms have "s \<in> set (case cells of
                              a # b # c # extra \<Rightarrow>
                                [\<lparr>test = a, test_step = b, expected_output = c\<rparr>]
                            | _ \<Rightarrow> [])"
    by (simp add: spec_row_steps_def cells_def)
  then obtain a b c extra where
    "cells = a # b # c # extra"
    and s: "s = \<lparr>test = a, test_step = b, expected_output = c\<rparr>"
    by (auto split: list.splits)
  then have cells: "spec_row_cells line = a # b # c # extra"
    by (simp add: cells_def)
  have "a \<in> set (spec_row_cells line)" "b \<in> set (spec_row_cells line)"
       "c \<in> set (spec_row_cells line)"
    by (simp_all add: cells)
  then show ?thesis using s spec_row_cells_trimmed by simp
qed

text \<open>In the pipe-table encoding every cell of every step is trimmed and not empty.\<close>

lemma pipe_table_cells_trimmed:
  assumes "contains description ''||''"
      and "s \<in> set (extract_test_steps_from_description description)"
  shows "strip (test s) = test s \<and> strip (test_step s) = test_step s
       \<and> strip (expected_output s) = expected_output s"
proof -
  from assms have "s \<in> set (spec_pipe_table_steps description)"
    by (simp add: extract_pipe_table)
  then obtain line where "s \<in> set (spec_row_steps line)"
    by (auto simp: spec_pipe_table_steps_def)
  then show ?thesis by (rule spec_row_steps_trimmed)
qed

text \<open>In the HTML table encoding a row with fewer than three cells adds no step, and a
  row with at least three adds the first three cells as they stand.\<close>

lemma html_table_loop_rows:
  "html_table_loop rows acc =
     acc @ concat (map (\<lambda>row. case findall_between ''<td>'' ''</td>'' row of
                                 a # b # c # extra \<Rightarrow>
                                   [\<lparr>test = a, test_step = b, expected_output = c\<rparr>]
                               | _ \<Rightarrow> []) rows)"
proof (induction rows arbitrary: acc)
  case Nil
  show ?case by simp
next
  case (Cons row rows)
  show ?case
    by (cases "findall_between ''<td>'' ''</td>'' row" rule: list.exhaust)
       (auto simp: Cons.IH Let_def split: list.splits)
qed

text \<open>
  C4. On a description in the pipe-table encoding (one that contains a double pipe) the
  extractor skips every line up to and including the first line that begins with a double
  pipe, and after it each line beginning with a pipe gives one step, in the order of the
  lines, exactly when its trimmed non-empty cells are at least three; the step is made of
  the first three cells. The number of steps is the number of such rows.
\<close>

theorem pipe_table_extraction:
  assumes "contains description ''||''"
  shows "extract_test_steps_from_description description = spec_pipe_table_steps description
       \<and> length (extract_test_steps_from_description description) =
           length (filter (\<lambda>line. 3 \<le> length (spec_row_cells line))
                     (spec_data_rows description))"
  using extract_pipe_table [OF assms]
  by (simp add: spec_pipe_table_steps_def length_concat_row_steps)

theorem pipe_table_extraction_witness:
  "contains login_description ''||''
   \<and> extract_test_steps_from_description login_description =
       [\<lparr>test = ''Login'', test_step = ''Enter user'', expected_output = ''Dashboard shown''\<rparr>]
   \<and> length (extract_test_steps_from_description login_description) = 1"
proof -
  have h: "contains login_description ''||''"
    by code_simp
  have rows: "spec_data_rows login_description = [''|Login|Enter user|Dashboard shown|'']"
    by code_simp
  have cells: "spec_row_cells ''|Login|Enter user|Dashboard shown|'' =
                 [''Login'', ''Enter user'', ''Dashboard shown'']"
    by code_simp
  show ?thesis
    using pipe_table_extraction [OF h] h
    by (simp add: spec_pipe_table_steps_def rows spec_row_steps_def cells)
qed

section \<open>Properties of the result store\<close>

lemma existing_index_takeWhile:
  "existing_index rs i tr =
     (if test_case_key tr \<in> test_case_key ` set rs
      then Some (i + length (takeWhile (\<lambda>r. test_case_key r \<noteq> test_case_key tr) rs))
      else None)"
  by (induction rs arbitrary: i) auto

lemma update_at_first_match:
  "k \<in> f ` set rs \<Longrightarrow>
     rs[length (takeWhile (\<lambda>r. f r \<noteq> k) rs) := x] =
       takeWhile (\<lambda>r. f r \<noteq> k) rs @ x # tl (dropWhile (\<lambda>r. f r \<noteq> k) rs)"
  by (induction rs) auto

lemma replace_or_append_code:
  "(case existing_index results 0 tr of
      Some i \<Rightarrow> g (results[i := tr])
    | None \<Rightarrow> g (results @ [tr])) = g (spec_replace_or_append tr results)"
  by (simp add: existing_index_takeWhile spec_replace_or_append_def update_at_first_match)

lemma replace_or_append_save:
  "(case existing_index results 0 tr of
      Some i \<Rightarrow> (let (saved, fs2) = save_test_results (results[i := tr]) fs1
                  in (Inr saved, fs2))
    | None \<Rightarrow> (let (saved, fs2) = save_test_results (results @ [tr]) fs1
                in (Inr saved, fs2)))
   = (Inr (fst (save_test_results (spec_replace_or_append tr results) fs1)) :: exn + bool,
      snd (save_test_results (spec_replace_or_append tr results) fs1))"
  using replace_or_append_code
    [where g = "\<lambda>rs. let (saved, fs2) = save_test_results rs fs1 in (Inr saved :: exn + bool, fs2)"]
  by (simp add: case_prod_beta)

lemma update_test_result_eq:
  "update_test_result tr fs =
     (case load_test_results fs of
        (Inl e, fs1) \<Rightarrow> (Inl e, fs1)
      | (Inr results, fs1) \<Rightarrow>
          (Inr (fst (save_test_results (spec_replace_or_append tr results) fs1)),
           snd (save_test_results (spec_replace_or_append tr results) fs1)))"
  by (simp add: update_test_result_def replace_or_append_save split: prod.splits sum.splits)

lemma save_ok_file:
  "fst (save_test_results rs fs) \<Longrightarrow> results_file (snd (save_test_results rs fs)) = Content rs"
  by (auto simp: save_test_results_def split: list.splits)

lemma save_failed_file:
  "\<not> fst (save_test_results rs fs) \<Longrightarrow>
     results_file (snd (save_test_results rs fs)) = results_file fs"
  by (auto simp: save_test_results_def split: list.splits)

lemma load_result_cases:
  assumes "load_test_results fs = (Inr results, fs1)"
  shows "fst (load_test_results fs1) = Inr results"
proof (cases "results_file fs")
  case (Content rs)
  with assms show ?thesis by (auto simp: load_test_results_def)
next
  case NotFound
  with assms have r: "results = []" and f: "fs1 = snd (save_test_results [] fs)"
    by (auto simp: load_test_results_def)
  show ?thesis
  proof (cases "fst (save_test_results [] fs)")
    case True
    then show ?thesis using r f save_ok_file [of "[]" fs] by (simp add: load_test_results_def)
  next
    case False
    then show ?thesis using r f NotFound save_failed_file [of "[]" fs]
      by (simp add: load_test_results_def)
  qed
next
  case Undecodable
  with assms have r: "results = []" and f: "fs1 = snd (save_test_results [] fs)"
    by (auto simp: load_test_results_def)
  show ?thesis
  proof (cases "fst (save_test_results [] fs)")
    case True
    then show ?thesis using r f save_ok_file [of "[]" fs] by (simp add: load_test_results_def)
  next
    case False
    then show ?thesis using r f Undecodable save_failed_file [of "[]" fs]
      by (simp add: load_test_results_def)
  qed
next
  case (Unreadable msg)
  with assms show ?thesis by (simp add: load_test_results_def)
qed

text \<open>What is read back after an update: the updated collection when the save
  succeeded, the collection as loaded when it failed.\<close>

lemma update_read_back:
  assumes l: "load_test_results fs = (Inr results, fs1)"
      and u: "update_test_result tr fs = (outcome, fs')"
  shows "(outcome = Inr True \<and> results_file fs' = Content (spec_replace_or_append tr results)
            \<and> fst (load_test_results fs') = Inr (spec_replace_or_append tr results))
       \<or> (outcome = Inr False \<and> results_file fs' = results_file fs1
            \<and> fst (load_test_results fs') = Inr results)"
proof -
  let ?new = "spec_replace_or_append tr results"
  from l u have o: "outcome = Inr (fst (save_test_results ?new fs1))"
    and f: "fs' = snd (save_test_results ?new fs1)"
    by (simp_all add: update_test_result_eq)
  show ?thesis
  proof (cases "fst (save_test_results ?new fs1)")
    case True
    then show ?thesis using o f save_ok_file [of ?new fs1]
      by (simp add: load_test_results_def)
  next
    case False
    have "results_file fs' = results_file fs1"
      using False f save_failed_file [of ?new fs1] by simp
    then have "fst (load_test_results fs') = fst (load_test_results fs1)"
      by (auto simp: load_test_results_def split: file_state.splits)
    then show ?thesis
      using False o load_result_cases [OF l] \<open>results_file fs' = results_file fs1\<close> by simp
  qed
qed




lemma replace_or_append_keys:
  "test_case_key tr \<in> test_case_key ` set results \<Longrightarrow>
     map test_case_key (spec_replace_or_append tr results) = map test_case_key results"
proof -
  let ?P = "\<lambda>r. test_case_key r \<noteq> test_case_key tr"
  assume a: "test_case_key tr \<in> test_case_key ` set results"
  then have ne: "dropWhile ?P results \<noteq> []" by (auto simp: dropWhile_eq_Nil_conv)
  then have hd: "test_case_key (hd (dropWhile ?P results)) = test_case_key tr"
    using hd_dropWhile [of ?P results] by simp
  have "map test_case_key results =
          map test_case_key (takeWhile ?P results @ hd (dropWhile ?P results) # tl (dropWhile ?P results))"
    using ne by simp
  also have "\<dots> = map test_case_key (takeWhile ?P results @ tr # tl (dropWhile ?P results))"
    using hd by simp
  finally show ?thesis using a by (simp add: spec_replace_or_append_def)
qed


text \<open>The update keeps the keys of the collection distinct, also when it appends.\<close>

lemma replace_or_append_distinct:
  assumes "distinct (map test_case_key results)"
  shows "distinct (map test_case_key (spec_replace_or_append tr results))"
proof (cases "test_case_key tr \<in> test_case_key ` set results")
  case True
  then show ?thesis using assms by (simp add: replace_or_append_keys)
next
  case False
  then show ?thesis using assms by (simp add: spec_replace_or_append_def)
qed

text \<open>
  C3. When the results file holds a collection of records, \<open>get_completed_test_keys\<close>
  returns the keys of exactly the records whose overall result is "Pass" or "Fail", in
  the order of the file, and leaves the file alone: a key is returned if and only if some
  record with that key has one of these two results, so a record with any other result
  contributes nothing.
\<close>

theorem completed_keys_exact:
  assumes "results_file fs = Content results"
  shows "\<exists>ks. get_completed_test_keys fs = (Inr ks, fs)
           \<and> ks = map test_case_key
                    (filter (\<lambda>r. overall_result r = ''Pass'' \<or> overall_result r = ''Fail'')
                       results)
           \<and> (\<forall>k. k \<in> set ks \<longleftrightarrow>
                  (\<exists>r \<in> set results. test_case_key r = k
                      \<and> (overall_result r = ''Pass'' \<or> overall_result r = ''Fail'')))"
proof -
  have "[test_case_key r. r \<leftarrow> rs, overall_result r \<in> set [''Pass'', ''Fail'']] =
          map test_case_key
            (filter (\<lambda>r. overall_result r = ''Pass'' \<or> overall_result r = ''Fail'') rs)"
    for rs :: "TestResult list"
    by (induction rs) auto
  then have "get_completed_test_keys fs =
          (Inr (map test_case_key
                  (filter (\<lambda>r. overall_result r = ''Pass'' \<or> overall_result r = ''Fail'')
                     results)), fs)"
    using assms by (simp add: get_completed_test_keys_def load_test_results_def)
  then show ?thesis by auto
qed

theorem completed_keys_exact_witness:
  "results_file mixed_files = Content mixed_results
   \<and> get_completed_test_keys mixed_files = (Inr [''B'', ''F''], mixed_files)
   \<and> ''E'' \<notin> set [''B'', ''F'']"
proof -
  have h: "results_file mixed_files = Content mixed_results"
    by (simp add: mixed_files_def)
  have v: "map test_case_key
             (filter (\<lambda>r. overall_result r = ''Pass'' \<or> overall_result r = ''Fail'')
                mixed_results) = [''B'', ''F'']"
    by (simp add: mixed_results_def record_for_def)
  show ?thesis
    using completed_keys_exact [OF h] h v by auto
qed





text \<open>
  C8. When the collection has been loaded and the save of the updated collection fails,
  \<open>update_test_result\<close> returns false and \<open>send_test_results\<close> answers with status 500
  and the message "Failed to update test results": it does not report success.
\<close>

theorem save_failure_is_reported:
  assumes l: "load_test_results fs = (Inr results, fs1)"
      and s: "\<not> fst (save_test_results
                       (spec_replace_or_append (submitted_record submission now) results) fs1)"
  shows "fst (update_test_result (submitted_record submission now) fs) = Inr False
       \<and> fst (send_test_results submission now client fs) =
           JSONResponse 500 (Message ''Failed to update test results'')
       \<and> \<not> reports_success (fst (send_test_results submission now client fs))"
proof -
  have u: "fst (update_test_result (submitted_record submission now) fs) = Inr False"
    using l s by (simp add: update_test_result_eq)
  then have "fst (send_test_results submission now client fs) =
               JSONResponse 500 (Message ''Failed to update test results'')"
    by (cases "update_test_result (submitted_record submission now) fs")
       (simp add: send_test_results_def)
  with u show ?thesis by simp
qed

theorem save_failure_is_reported_witness:
  "load_test_results failing_files = (Inr mixed_results, failing_files)
   \<and> \<not> fst (save_test_results
              (spec_replace_or_append (submitted_record submission_E ''t'') mixed_results)
              failing_files)
   \<and> fst (update_test_result (submitted_record submission_E ''t'') failing_files) = Inr False
   \<and> fst (send_test_results submission_E ''t'' scenario_client failing_files) =
       JSONResponse 500 (Message ''Failed to update test results'')"
proof -
  have h1: "load_test_results failing_files = (Inr mixed_results, failing_files)"
    by (simp add: load_test_results_def failing_files_def mixed_files_def)
  have h2: "\<not> fst (save_test_results
                    (spec_replace_or_append (submitted_record submission_E ''t'') mixed_results)
                    failing_files)"
    by (simp add: save_test_results_def failing_files_def mixed_files_def)
  show ?thesis
    using save_failure_is_reported [OF h1 h2, of scenario_client] h1 h2 by simp
qed

text \<open>The converse reading: a response that reports success was preceded by a save of
  the updated collection, and the results file holds it.\<close>

lemma success_means_saved:
  assumes "reports_success (fst (send_test_results submission now client fs))"
  shows "\<exists>results. fst (load_test_results fs) = Inr results
           \<and> results_file (snd (send_test_results submission now client fs)) =
               Content (spec_replace_or_append (submitted_record submission now) results)"
proof -
  let ?tr = "submitted_record submission now"
  obtain outcome fs1 where u: "update_test_result ?tr fs = (outcome, fs1)"
    by (cases "update_test_result ?tr fs")
  obtain loaded fs0 where l: "load_test_results fs = (loaded, fs0)"
    by (cases "load_test_results fs")
  from assms u have o: "outcome = Inr True"
    by (auto simp: send_test_results_def split: sum.splits if_splits)
  with u l obtain results where r: "loaded = Inr results"
    by (cases loaded) (auto simp: update_test_result_eq)
  from update_read_back [OF l [unfolded r] u] o
  have c: "results_file fs1 = Content (spec_replace_or_append ?tr results)" by auto
  then have g: "get_completed_test_keys fs1 =
                  (Inr [test_case_key r. r \<leftarrow> spec_replace_or_append ?tr results,
                          overall_result r \<in> set [''Pass'', ''Fail'']], fs1)"
    by (simp add: get_completed_test_keys_def load_test_results_def)
  have "results_file (snd (send_test_results submission now client fs)) = results_file fs1"
    using assms u o g
    by (auto simp: send_test_results_def log_test_execution_def Let_def
             split: sum.splits if_splits)
  with c l r show ?thesis by simp
qed

section \<open>Properties of the reconciler and of the resolver\<close>

lemma incomplete_tests_keys:
  "set (map inc_key
         [\<lparr>inc_key = key tc, inc_summary = summary tc, inc_status = status tc\<rparr>.
            tc \<leftarrow> tcs, key tc \<in> S]) = key ` set tcs \<inter> S"
  by (induction tcs) auto

text \<open>
  C1. When the three searches of the tracker succeed and the completed keys can be read,
  \<open>get_incomplete_tests\<close> answers with status 200, and the keys of the tests it lists are
  the set \<open>incomplete_keys\<close>, which is (To Do keys \<union> In Progress keys) - Done keys -
  completed keys; the count is the length of the list. So a key that is in neither the
  To Do nor the In Progress bucket is not listed, whatever the local records are.
\<close>

theorem outstanding_tests:
  assumes t: "get_test_cases_by_status client ''To Do'' = Inr todo_tests"
      and p: "get_test_cases_by_status client ''In Progress'' = Inr in_progress_tests"
      and d: "get_test_cases_by_status client ''Done'' = Inr done_tests"
      and c: "fst (get_completed_test_keys fs) = Inr completed_keys"
  shows "\<exists>tests.
           fst (get_incomplete_tests client fs) =
             JSONResponse 200 (IncompleteTests tests (length tests))
         \<and> set (map inc_key tests) =
             incomplete_keys todo_tests in_progress_tests done_tests completed_keys
         \<and> incomplete_keys todo_tests in_progress_tests done_tests completed_keys =
             (key ` set todo_tests \<union> key ` set in_progress_tests)
               - key ` set done_tests - set completed_keys
         \<and> (\<forall>k. k \<notin> key ` set todo_tests \<union> key ` set in_progress_tests \<longrightarrow>
                  k \<notin> set (map inc_key tests))"
proof -
  let ?S = "incomplete_keys todo_tests in_progress_tests done_tests completed_keys"
  let ?tests = "[\<lparr>inc_key = key tc, inc_summary = summary tc, inc_status = status tc\<rparr>.
                   tc \<leftarrow> todo_tests @ in_progress_tests, key tc \<in> ?S]"
  have S: "?S = (key ` set todo_tests \<union> key ` set in_progress_tests)
                  - key ` set done_tests - set completed_keys"
    by (simp add: incomplete_keys_def)
  have r: "fst (get_incomplete_tests client fs) =
             JSONResponse 200 (IncompleteTests ?tests (length ?tests))"
    using t p d c
    by (cases "get_completed_test_keys fs") (simp add: get_incomplete_tests_def Let_def)
  have k: "set (map inc_key ?tests) = key ` set (todo_tests @ in_progress_tests) \<inter> ?S"
    by (rule incomplete_tests_keys)
  have sub: "?S \<subseteq> key ` set (todo_tests @ in_progress_tests)"
    unfolding S by auto
  have "set (map inc_key ?tests) = key ` set (todo_tests @ in_progress_tests) \<inter> ?S"
    by (rule k)
  also have "\<dots> = ?S"
    using sub by (rule Int_absorb1)
  finally have "set (map inc_key ?tests) = ?S" .
  then show ?thesis
    using r S by blast
qed

theorem outstanding_tests_witness:
  "get_test_cases_by_status scenario_client ''To Do'' =
     Inr [plain_case ''A'' ''To Do'', plain_case ''B'' ''To Do'']
   \<and> get_test_cases_by_status scenario_client ''In Progress'' =
       Inr [plain_case ''C'' ''In Progress'']
   \<and> get_test_cases_by_status scenario_client ''Done'' = Inr [plain_case ''D'' ''Done'']
   \<and> fst (get_completed_test_keys scenario_files) = Inr [''B'']
   \<and> (\<exists>tests.
         fst (get_incomplete_tests scenario_client scenario_files) =
           JSONResponse 200 (IncompleteTests tests (length tests))
       \<and> set (map inc_key tests) = {''A'', ''C''})"
proof -
  have t: "get_test_cases_by_status scenario_client ''To Do'' =
             Inr [plain_case ''A'' ''To Do'', plain_case ''B'' ''To Do'']"
    by code_simp
  have p: "get_test_cases_by_status scenario_client ''In Progress'' =
             Inr [plain_case ''C'' ''In Progress'']"
    by code_simp
  have d: "get_test_cases_by_status scenario_client ''Done'' = Inr [plain_case ''D'' ''Done'']"
    by code_simp
  have c: "fst (get_completed_test_keys scenario_files) = Inr [''B'']"
    by code_simp
  have v: "(key ` set [plain_case ''A'' ''To Do'', plain_case ''B'' ''To Do'']
              \<union> key ` set [plain_case ''C'' ''In Progress''])
             - key ` set [plain_case ''D'' ''Done''] - set [''B''] = {''A'', ''C''}"
    by (auto simp: plain_case_def)
  from outstanding_tests [OF t p d c] obtain tests where
    "fst (get_incomplete_tests scenario_client scenario_files) =
       JSONResponse 200 (IncompleteTests tests (length tests))"
    "set (map inc_key tests) =
       (key ` set [plain_case ''A'' ''To Do'', plain_case ''B'' ''To Do'']
          \<union> key ` set [plain_case ''C'' ''In Progress''])
         - key ` set [plain_case ''D'' ''Done''] - set [''B'']"
    by auto
  then show ?thesis using t p d c v by auto
qed

text \<open>
  C2. \<open>_can_execute_test\<close> is false when the key of the test is in the cached completed
  set, whatever its dependencies are. Otherwise it is true exactly when every key of
  \<open>_find_dependencies\<close> is in the cached completed set; in particular it is true when
  there is no dependency.
\<close>

theorem can_execute_contract:
  "(key tc \<in> completed_tests self \<longrightarrow> \<not> can_execute_test self tc)
   \<and> (key tc \<notin> completed_tests self \<longrightarrow>
        can_execute_test self tc =
          (\<forall>dep_key \<in> set (find_dependencies self (key tc)). dep_key \<in> completed_tests self))
   \<and> (key tc \<notin> completed_tests self \<and> find_dependencies self (key tc) = [] \<longrightarrow>
        can_execute_test self tc)"
  by (simp add: can_execute_test_def list_all_iff)

theorem can_execute_contract_witness:
  "key (plain_case ''B'' ''To Do'') \<in> completed_tests scenario_resolver
   \<and> \<not> can_execute_test scenario_resolver (plain_case ''B'' ''To Do'')
   \<and> key (plain_case ''C'' ''In Progress'') \<notin> completed_tests scenario_resolver
   \<and> find_dependencies scenario_resolver ''C'' = [''A'']
   \<and> \<not> can_execute_test scenario_resolver (plain_case ''C'' ''In Progress'')
   \<and> key (plain_case ''A'' ''To Do'') \<notin> completed_tests scenario_resolver
   \<and> find_dependencies scenario_resolver ''A'' = []
   \<and> can_execute_test scenario_resolver (plain_case ''A'' ''To Do'')"
proof -
  have kb: "key (plain_case ''B'' ''To Do'') \<in> completed_tests scenario_resolver"
    by (simp add: plain_case_def scenario_resolver_def)
  have kc: "key (plain_case ''C'' ''In Progress'') \<notin> completed_tests scenario_resolver"
           "key (plain_case ''C'' ''In Progress'') = ''C''"
    by (simp_all add: plain_case_def scenario_resolver_def)
  have ka: "key (plain_case ''A'' ''To Do'') \<notin> completed_tests scenario_resolver"
           "key (plain_case ''A'' ''To Do'') = ''A''"
    by (simp_all add: plain_case_def scenario_resolver_def)
  have dc: "find_dependencies scenario_resolver ''C'' = [''A'']"
    by code_simp
  have da: "find_dependencies scenario_resolver ''A'' = []"
    by code_simp
  have na: "''A'' \<notin> completed_tests scenario_resolver"
    by (simp add: scenario_resolver_def)
  show ?thesis
    using can_execute_contract [of "plain_case ''B'' ''To Do''" scenario_resolver]
          can_execute_contract [of "plain_case ''C'' ''In Progress''" scenario_resolver]
          can_execute_contract [of "plain_case ''A'' ''To Do''" scenario_resolver]
          kb kc ka dc da na
    by simp
qed



lemma executable_tests_loop_filter:
  "executable_tests_loop self test_cases acc = acc @ filter (can_execute_test self) test_cases"
  by (induction test_cases arbitrary: acc) auto

lemma find_executable_tests_raises:
  "get_test_cases_by_status (jira_client self) status_name = Inl e \<Longrightarrow>
     find_executable_tests self status_name = Inl e"
  by (simp add: find_executable_tests_def)

text \<open>
  C9. When the search of the tracker gives a candidate sequence,
  \<open>find_executable_tests\<close> returns the candidates for which \<open>_can_execute_test\<close> holds, in
  their order. \<open>get_next_test\<close> returns the first element of
  \<open>find_executable_tests("To Do")\<close>, and none when that list is empty; when the search
  raises, both raise.
\<close>

theorem find_executable_and_next:
  assumes "get_test_cases_by_status (jira_client self) status_name = Inr candidates"
  shows "find_executable_tests self status_name =
           Inr (filter (can_execute_test self) candidates)
       \<and> get_next_test self =
           (case find_executable_tests self ''To Do'' of
              Inl e \<Rightarrow> Inl e
            | Inr [] \<Rightarrow> Inr None
            | Inr (first # others) \<Rightarrow> Inr (Some first))"
proof -
  have "find_executable_tests self status_name =
          Inr (filter (can_execute_test self) candidates)"
    using assms by (simp add: find_executable_tests_def executable_tests_loop_filter)
  moreover have "get_next_test self =
           (case find_executable_tests self ''To Do'' of
              Inl e \<Rightarrow> Inl e
            | Inr [] \<Rightarrow> Inr None
            | Inr (first # others) \<Rightarrow> Inr (Some first))"
    by (simp add: get_next_test_def split: sum.splits list.splits)
  ultimately show ?thesis by simp
qed

theorem find_executable_and_next_witness:
  "get_test_cases_by_status (jira_client scenario_resolver) ''To Do'' =
     Inr [plain_case ''A'' ''To Do'', plain_case ''B'' ''To Do'']
   \<and> find_executable_tests scenario_resolver ''To Do'' = Inr [plain_case ''A'' ''To Do'']
   \<and> get_next_test scenario_resolver = Inr (Some (plain_case ''A'' ''To Do''))"
proof -
  have h: "get_test_cases_by_status (jira_client scenario_resolver) ''To Do'' =
             Inr [plain_case ''A'' ''To Do'', plain_case ''B'' ''To Do'']"
    by code_simp
  have f: "filter (can_execute_test scenario_resolver)
             [plain_case ''A'' ''To Do'', plain_case ''B'' ''To Do''] =
           [plain_case ''A'' ''To Do'']"
    by code_simp
  show ?thesis
    using find_executable_and_next [OF h] h f by simp
qed

text \<open>
  C5, as the code behaves. In the HTML table encoding the cells are the texts between
  the cell tags, taken as they are: the row of \<open>html_description\<close> gives a step whose
  first cell keeps its leading and trailing blank, although \<open>strip\<close> would remove them.
\<close>

theorem html_cells_are_not_trimmed:
  "extract_test_steps_from_description html_description =
     [\<lparr>test = '' Login '', test_step = ''Enter user'', expected_output = ''Dashboard shown''\<rparr>]
   \<and> strip '' Login '' = ''Login''"
  by code_simp

end
